theory Spec2Isabelle
  imports Main "HOL-Library.Word"
begin

section \<open>The RPC engine of libhdfspp (lib/rpc/rpc_engine.h)\<close>

text \<open>
  The header declares three classes: \<open>Request\<close> (bookkeeping of one outstanding call),
  \<open>RpcConnection\<close> (send queue, in-flight map, response framing) and \<open>RpcEngine\<close>
  (call-id allocation, retry policy, reconnection). Only the member functions that are
  defined inline in the header have a body there: \<open>Request::call_id\<close>,
  \<open>Request::IncrementRetryCount\<close>, \<open>RpcEngine::NextCallId\<close> and the accessors.

  A C++ \<open>int\<close> is a 32-bit two's complement value: \<open>32 word\<close>, read as a number by
  \<open>sint\<close>. Field names drop the trailing underscore of the source
  (\<open>call_id_\<close> is \<open>call_id\<close>), which Isabelle reserves for internal names.
\<close>

type_synonym cint = "32 word"

subsection \<open>RpcEngine: constants and call-id allocation\<close>

definition kRpcVersion :: cint where
  "kRpcVersion = 9"

definition kCallIdAuthorizationFailed :: cint where
  "kCallIdAuthorizationFailed = - 1"

definition kCallIdInvalid :: cint where
  "kCallIdInvalid = - 2"

definition kCallIdConnectionContext :: cint where
  "kCallIdConnectionContext = - 3"

definition kCallIdPing :: cint where
  "kCallIdPing = - 4"

text \<open>The four reserved call ids of the anonymous enum of \<open>RpcEngine\<close>.\<close>

definition reserved_call_id :: "cint \<Rightarrow> bool" where
  "reserved_call_id i \<longleftrightarrow>
     i = kCallIdAuthorizationFailed \<or> i = kCallIdInvalid \<or>
     i = kCallIdConnectionContext \<or> i = kCallIdPing"

text \<open>
  The data members of \<open>RpcEngine\<close> that the inline member functions read or write.
  \<open>call_id\<close> is \<open>std::atomic_int call_id_\<close>: arithmetic on an atomic integer is
  two's complement and wraps without undefined behaviour.
\<close>

record RpcEngine =
  client_name :: string
  protocol_name :: string
  protocol_version :: cint
  call_id :: cint

text \<open>\<open>int NextCallId() override { return ++call_id_; }\<close>\<close>

definition NextCallId :: "RpcEngine \<Rightarrow> cint \<times> RpcEngine" where
  "NextCallId e = (call_id e + 1, e\<lparr>call_id := call_id e + 1\<rparr>)"

text \<open>A caller that allocates \<open>n\<close> call ids one after the other, first id first.\<close>

fun NextCallIds :: "nat \<Rightarrow> RpcEngine \<Rightarrow> cint list \<times> RpcEngine" where
  "NextCallIds 0 e = ([], e)"
| "NextCallIds (Suc n) e =
     (case NextCallId e of (i, e') \<Rightarrow>
        (case NextCallIds n e' of (ids, e'') \<Rightarrow> (i # ids, e'')))"

subsection \<open>Request\<close>

text \<open>
  The data members of \<open>Request\<close>. \<open>engine_\<close> (a back pointer), \<open>timer_\<close> and
  \<open>handler_\<close> (a function object) are not data of the model: a timer that fires and a
  handler that runs are events.
\<close>

record Request =
  method_name :: string
  call_id :: cint
  payload :: string
  retry_count :: cint

text \<open>
  \<open>int IncrementRetryCount() { return retry_count_++; }\<close>: the value before the
  increment is returned. \<open>retry_count_\<close> is a plain \<open>int\<close>; the addition is the 32-bit
  addition of the machine (at \<open>INT_MAX\<close> the C++ standard leaves the result open, two's
  complement hardware wraps).
\<close>

definition IncrementRetryCount :: "Request \<Rightarrow> cint \<times> Request" where
  "IncrementRetryCount r = (retry_count r, r\<lparr>retry_count := retry_count r + 1\<rparr>)"


subsection \<open>RpcConnection: the in-flight map and the dispatch of responses\<close>

text \<open>
  The data members of \<open>RpcConnection\<close> that hold requests, with the types of the header:
  \<open>pending_requests_\<close> is a \<open>std::vector\<close> (a list), \<open>requests_on_fly_\<close> is
  \<open>RequestOnFlyMap\<close>, a \<open>std::unordered_map\<close> from \<open>int\<close> to the shared Request (a
  map), \<open>request_over_the_wire_\<close> is a pointer that may be null (an option). The read
  buffer \<open>response_\<close> and the mutex are left out.
\<close>

record RpcConnection =
  connected :: bool
  request_over_the_wire :: "Request option"
  pending_requests :: "Request list"
  requests_on_fly :: "cint \<rightharpoonup> Request"

text \<open>
  Modelled from the spec: the status type of \<open>libhdfspp/status.h\<close>, which is not among
  the sources. The spec describes it as success or one of a closed taxonomy of failure
  kinds: transport-level, protocol-level, application-level (reported by the server for
  one call) and client-local (the timeout of one request).
\<close>

datatype FailureKind = Transport | Protocol | Application | Timeout

datatype Status = OK | Failure FailureKind

text \<open>
  Modelled from the spec: a response frame after the \<open>parse\<close> step of the framing state
  machine has decoded it (the protobuf decoding in the body of \<open>HandleRpcResponse\<close> is
  not among the sources): the call id, the status and the serialized response body.
\<close>

record Frame =
  frame_call_id :: cint
  frame_status :: Status
  frame_body :: string

text \<open>
  One run of a completion handler \<open>handler_\<close>: the Request it belongs to, the parsed
  response stream (or none) and the status it is given, as in the type \<open>Handler\<close> of
  the header.
\<close>

datatype HandlerCall = HandlerCall (hc_request: Request) (hc_stream: "string option")
  (hc_status: Status)

text \<open>
  Modelled from the spec: the body of \<open>Request::OnResponseArrived\<close>, which the header
  only declares. It runs the completion handler with the stream and the status it is
  given and has no other effect. The result is the list of handler runs it causes.
\<close>

definition OnResponseArrived :: "Request \<Rightarrow> string option \<Rightarrow> Status \<Rightarrow> HandlerCall list" where
  "OnResponseArrived r is status = [HandlerCall r is status]"

text \<open>
  Modelled from the spec: the body of \<open>RpcConnection::RemoveFromRunningQueue\<close>, which
  the header only declares. It looks the call id up in the in-flight map and removes the
  entry; the result is the Request found (a null pointer, \<open>None\<close>, when there is none).
\<close>

definition RemoveFromRunningQueue :: "RpcConnection \<Rightarrow> cint \<Rightarrow> Request option \<times> RpcConnection" where
  "RemoveFromRunningQueue c i =
     (case requests_on_fly c i of
        None \<Rightarrow> (None, c)
      | Some r \<Rightarrow> (Some r, c\<lparr>requests_on_fly := (requests_on_fly c)(i := None)\<rparr>))"

text \<open>
  Modelled from the spec: the body of \<open>RpcConnection::HandleRpcResponse\<close>, which the
  header only declares. The call id of the frame is looked up in the in-flight map and
  removed, and the result is delivered to the matching Request; a frame whose call id
  matches no entry is dropped without error. The result is the connection afterwards and
  the handler runs caused.
\<close>

definition HandleRpcResponse :: "RpcConnection \<Rightarrow> Frame \<Rightarrow> RpcConnection \<times> HandlerCall list" where
  "HandleRpcResponse c f =
     (case RemoveFromRunningQueue c (frame_call_id f) of
        (None, c') \<Rightarrow> (c', [])
      | (Some r, c') \<Rightarrow> (c', OnResponseArrived r (Some (frame_body f)) (frame_status f)))"

text \<open>
  Modelled from the spec: the body of \<open>RpcConnection::HandleRpcTimeout\<close>, which the
  header only declares. The deadline timer of \<open>req\<close> has fired: that single Request is
  removed from the in-flight map and reported, with a timeout failure, as a candidate for
  the retry-or-fail decision; a Request that is no longer in the map is not reported.
  The model is of a timer that has fired: the error code of the header's signature, of
  which the spec says nothing, is not a parameter. The result is the connection
  afterwards and the candidate reported, if any.
\<close>

definition HandleRpcTimeout :: "RpcConnection \<Rightarrow> Request \<Rightarrow> RpcConnection \<times> (Request \<times> Status) option" where
  "HandleRpcTimeout c req =
     (case RemoveFromRunningQueue c (Request.call_id req) of
        (None, c') \<Rightarrow> (c', None)
      | (Some r, c') \<Rightarrow> (c', Some (r, Failure Timeout)))"

text \<open>
  What reaches a connection while it reads: a response frame has been assembled, or the
  deadline timer of a request has fired. \<open>target\<close> is the call id an event is about.
\<close>

datatype Event = ResponseArrived Frame | TimerFired Request

fun target :: "Event \<Rightarrow> cint" where
  "target (ResponseArrived f) = frame_call_id f"
| "target (TimerFired req) = Request.call_id req"

text \<open>
  The state of a connection together with what it has done so far: the handler runs it
  caused and the timeout candidates it reported, oldest first.
\<close>

record Trace =
  conn :: RpcConnection
  calls :: "HandlerCall list"
  candidates :: "(Request \<times> Status) list"

fun HandleEvent :: "Trace \<Rightarrow> Event \<Rightarrow> Trace" where
  "HandleEvent t (ResponseArrived f) =
     (case HandleRpcResponse (conn t) f of
        (c', hs) \<Rightarrow> t\<lparr>conn := c', calls := calls t @ hs\<rparr>)"
| "HandleEvent t (TimerFired req) =
     (case HandleRpcTimeout (conn t) req of
        (c', None) \<Rightarrow> t\<lparr>conn := c'\<rparr>
      | (c', Some cand) \<Rightarrow> t\<lparr>conn := c', candidates := candidates t @ [cand]\<rparr>)"

text \<open>The events are handled one after the other, in the order in which they arrive.\<close>

definition HandleEvents :: "Trace \<Rightarrow> Event list \<Rightarrow> Trace" where
  "HandleEvents t evs = foldl HandleEvent t evs"

text \<open>A connection that has done nothing yet.\<close>

definition start :: "RpcConnection \<Rightarrow> Trace" where
  "start c = \<lparr>conn = c, calls = [], candidates = []\<rparr>"

text \<open>
  The in-flight map is keyed by the call id of the Request it holds (the spec's "mapping
  from call id to in-flight Request").
\<close>

definition keyed_by_call_id :: "RpcConnection \<Rightarrow> bool" where
  "keyed_by_call_id c \<longleftrightarrow> (\<forall>i r. requests_on_fly c i = Some r \<longrightarrow> Request.call_id r = i)"


text \<open>
  A connection with two requests in flight and nothing queued, at which the theorems
  below are instantiated.
\<close>

abbreviation req_A :: Request where
  "req_A \<equiv> \<lparr>method_name = ''getFileInfo'', call_id = 1, payload = ''a'', retry_count = 0\<rparr>"

abbreviation req_B :: Request where
  "req_B \<equiv> \<lparr>method_name = ''getListing'', call_id = 2, payload = ''b'', retry_count = 0\<rparr>"

abbreviation conn_AB :: RpcConnection where
  "conn_AB \<equiv> \<lparr>connected = True, request_over_the_wire = None, pending_requests = [],
     requests_on_fly = [1 \<mapsto> req_A, 2 \<mapsto> req_B]\<rparr>"


section \<open>Properties of the call-id counter\<close>

lemma sint_add_of_nat:
  fixes c :: cint
  assumes "sint c + int k < 2 ^ 31"
  shows "sint (c + of_nat k) = sint c + int k"
proof -
  have lo: "- (2 ^ 31) \<le> sint c"
    using sint_ge [of c] by simp
  have "c + of_nat k = word_of_int (sint c + int k)"
    by simp
  then have "sint (c + of_nat k) = signed_take_bit 31 (sint c + int k)"
    by (simp only: sint_sbintrunc') simp
  also have "\<dots> = sint c + int k"
    using lo assms by (intro signed_take_bit_int_eq_self) simp_all
  finally show ?thesis .
qed

lemma NextCallIds_length: "length (fst (NextCallIds n e)) = n"
  by (induction n arbitrary: e) (simp_all add: NextCallId_def case_prod_unfold)

lemma NextCallIds_counter:
  "RpcEngine.call_id (snd (NextCallIds n e)) = RpcEngine.call_id e + of_nat n"
  by (induction n arbitrary: e) (simp_all add: NextCallId_def case_prod_unfold)

lemma NextCallIds_nth:
  "k < n \<Longrightarrow> fst (NextCallIds n e) ! k = RpcEngine.call_id e + of_nat (Suc k)"
proof (induction n arbitrary: e k)
  case 0
  then show ?case by simp
next
  case (Suc n)
  show ?case
  proof (cases k)
    case 0
    then show ?thesis by (simp add: NextCallId_def case_prod_unfold)
  next
    case (Suc j)
    with Suc.prems have "j < n" by simp
    from Suc.IH [OF this, of "e\<lparr>RpcEngine.call_id := RpcEngine.call_id e + 1\<rparr>"]
    show ?thesis using Suc by (simp add: NextCallId_def case_prod_unfold)
  qed
qed

lemma NextCallIds_eq_map:
  "fst (NextCallIds n e) = map (\<lambda>k. RpcEngine.call_id e + of_nat (Suc k)) [0..<n]"
  by (rule nth_equalityI) (simp_all add: NextCallIds_length NextCallIds_nth)

text \<open>
  After \<open>n\<close> calls the counter stands at \<open>c + n\<close> modulo \<open>2^32\<close>, so from wherever
  the constructor (which is not in the header) starts it, it reaches every value; from 0
  it reaches \<open>INT_MAX\<close> after \<open>2^31 - 1\<close> calls and \<open>-2\<close> after \<open>2^32 - 2\<close>.
\<close>

lemma NextCallIds_reaches_any:
  "\<exists>n. RpcEngine.call_id (snd (NextCallIds n e)) = v"
proof
  show "RpcEngine.call_id (snd (NextCallIds (unat (v - RpcEngine.call_id e)) e)) = v"
    by (simp add: NextCallIds_counter)
qed

lemma NextCallIds_reaches_INT_MAX:
  "RpcEngine.call_id e = 0 \<Longrightarrow> RpcEngine.call_id (snd (NextCallIds 2147483647 e)) = 2147483647"
  by (simp add: NextCallIds_counter)

lemma NextCallIds_reaches_minus_2:
  "RpcEngine.call_id e = 0 \<Longrightarrow> RpcEngine.call_id (snd (NextCallIds 4294967294 e)) = - 2"
  by (simp add: NextCallIds_counter)

lemma of_nat_cint_neq:
  assumes "i < j" "j - i < 2 ^ 32"
  shows "(of_nat i :: cint) \<noteq> of_nat j"
proof
  assume "(of_nat i :: cint) = of_nat j"
  then have "(of_nat j :: cint) - of_nat i = 0" by simp
  then have "(of_nat (j - i) :: cint) = 0"
    using assms(1) by (simp add: of_nat_diff)
  then have "2 ^ 32 dvd j - i"
    by (simp add: word_of_nat_eq_0_iff)
  with assms show False
    by (auto dest: dvd_imp_le)
qed

lemma sint_add_1:
  fixes c :: cint
  shows "sint (c + 1) = (if sint c = 2 ^ 31 - 1 then - (2 ^ 31) else sint c + 1)"
proof (cases "sint c = 2 ^ 31 - 1")
  case True
  then have "sint c = sint (2147483647 :: cint)" by simp
  then have "c = 2147483647" by (rule signed_word_eqI)
  then show ?thesis by simp
next
  case False
  moreover have "sint c < 2 ^ 31" using sint_lt [of c] by simp
  ultimately have "sint c + int 1 < 2 ^ 31" by simp
  from sint_add_of_nat [OF this] False show ?thesis by simp
qed

lemma reserved_call_id_sint:
  "reserved_call_id i \<longleftrightarrow> sint i \<in> {- 4, - 3, - 2, - 1}"
proof -
  have "i = - 1 \<longleftrightarrow> sint i = - 1" "i = - 2 \<longleftrightarrow> sint i = - 2"
       "i = - 3 \<longleftrightarrow> sint i = - 3" "i = - 4 \<longleftrightarrow> sint i = - 4"
    by (simp_all add: word_eq_iff_signed [where 'a = int])
  then show ?thesis
    by (auto simp: reserved_call_id_def kCallIdAuthorizationFailed_def kCallIdInvalid_def
      kCallIdConnectionContext_def kCallIdPing_def)
qed

text \<open>
  Claim C3, as stated, at a concrete input: the call ids returned by successive calls of
  \<open>NextCallId\<close> are not always strictly increasing. With the counter at \<open>INT_MAX - 1\<close>
  the next two calls return \<open>2147483647\<close> and then \<open>-2147483648\<close>: the atomic
  counter wraps.
\<close>

theorem NextCallIds_not_increasing_at_INT_MAX:
  "\<not> sorted_wrt (\<lambda>a b. sint a < sint b)
       (fst (NextCallIds 2 \<lparr>client_name = ''c'', protocol_name = ''p'', protocol_version = 1,
                             call_id = 2147483646\<rparr>))"
  by (simp add: numeral_2_eq_2 NextCallId_def)

text \<open>
  Claim C3, amended: the call ids returned by \<open>n\<close> successive calls of \<open>NextCallId\<close>
  are strictly increasing as long as the counter does not pass \<open>INT_MAX\<close> during those
  calls, and, wherever the counter stands, any \<open>2^32\<close> successive calls return pairwise
  different ids (an id comes back only after the counter has gone round once).
\<close>

theorem NextCallIds_increasing_until_wrap:
  "(sint (RpcEngine.call_id e) + int n < 2 ^ 31 \<longrightarrow>
      sorted_wrt (\<lambda>a b. sint a < sint b) (fst (NextCallIds n e))) \<and>
   (n \<le> 2 ^ 32 \<longrightarrow> distinct (fst (NextCallIds n e)))"
proof (intro conjI impI)
  assume b: "sint (RpcEngine.call_id e) + int n < 2 ^ 31"
  have "sint (RpcEngine.call_id e + of_nat (Suc i)) < sint (RpcEngine.call_id e + of_nat (Suc j))"
    if "i < j" "j < n" for i j
  proof -
    have "sint (RpcEngine.call_id e) + int (Suc i) < 2 ^ 31"
         "sint (RpcEngine.call_id e) + int (Suc j) < 2 ^ 31"
      using b that by simp_all
    then show ?thesis
      using that by (simp only: sint_add_of_nat)
  qed
  then show "sorted_wrt (\<lambda>a b. sint a < sint b) (fst (NextCallIds n e))"
    by (simp add: NextCallIds_eq_map sorted_wrt_map sorted_wrt_iff_nth_less del: of_nat_Suc)
next
  assume n: "n \<le> 2 ^ 32"
  have "inj_on (\<lambda>k. RpcEngine.call_id e + of_nat (Suc k)) {0..<n}"
  proof (rule inj_onI)
    fix i j assume ij: "i \<in> {0..<n}" "j \<in> {0..<n}"
      and eq: "RpcEngine.call_id e + of_nat (Suc i) = RpcEngine.call_id e + of_nat (Suc j)"
    from eq have eq': "(of_nat (Suc i) :: cint) = of_nat (Suc j)" by (simp del: of_nat_Suc)
    show "i = j"
    proof (rule ccontr)
      assume "i \<noteq> j"
      then consider "i < j" | "j < i" by linarith
      then show False
      proof cases
        case 1
        then have "(of_nat (Suc i) :: cint) \<noteq> of_nat (Suc j)"
          using ij n by (intro of_nat_cint_neq) simp_all
        with eq' show False by simp
      next
        case 2
        then have "(of_nat (Suc j) :: cint) \<noteq> of_nat (Suc i)"
          using ij n by (intro of_nat_cint_neq) simp_all
        with eq' show False by simp
      qed
    qed
  qed
  then show "distinct (fst (NextCallIds n e))"
    by (simp add: NextCallIds_eq_map distinct_map)
qed

text \<open>The amended claim C3 at a counter that stands at 0, for three calls.\<close>

theorem NextCallIds_increasing_until_wrap_witness:
  "sint (0 :: cint) + int 3 < 2 ^ 31 \<and> (3 :: nat) \<le> 2 ^ 32 \<and>
   fst (NextCallIds 3 \<lparr>client_name = ''c'', protocol_name = ''p'', protocol_version = 1,
                        call_id = 0\<rparr>) = [1, 2, 3] \<and>
   sorted_wrt (\<lambda>a b. sint a < sint b) [1, 2, 3 :: cint] \<and> distinct [1, 2, 3 :: cint]"
  using NextCallIds_increasing_until_wrap
    [of "\<lparr>client_name = ''c'', protocol_name = ''p'', protocol_version = 1, call_id = 0\<rparr>" 3]
  by (simp add: numeral_3_eq_3 NextCallId_def)

text \<open>
  Claim C8, as stated, at a concrete input: \<open>NextCallId\<close> can return a reserved value.
  With the counter at \<open>-2\<close> (where a counter that started at 0 stands after
  \<open>2^32 - 2\<close> calls) the next call returns \<open>-1\<close>, the authorization-failure marker.
\<close>

theorem NextCallId_returns_reserved_id:
  "fst (NextCallId \<lparr>client_name = ''c'', protocol_name = ''p'', protocol_version = 1,
         call_id = - 2\<rparr>) = kCallIdAuthorizationFailed \<and>
   reserved_call_id (fst (NextCallId \<lparr>client_name = ''c'', protocol_name = ''p'',
         protocol_version = 1, call_id = - 2\<rparr>))"
  by (simp add: NextCallId_def reserved_call_id_def kCallIdAuthorizationFailed_def)

text \<open>
  Claim C8, amended: \<open>NextCallId\<close> returns one of the four reserved values exactly when
  the counter stands at \<open>-5\<close>, \<open>-4\<close>, \<open>-3\<close> or \<open>-2\<close> before the call; a counter
  that is not negative returns only positive, hence unreserved, ids until it passes
  \<open>INT_MAX\<close>.
\<close>

theorem NextCallId_reserved_only_after_wrap:
  "(reserved_call_id (fst (NextCallId e)) \<longleftrightarrow>
      sint (RpcEngine.call_id e) \<in> {- 5, - 4, - 3, - 2}) \<and>
   (0 \<le> sint (RpcEngine.call_id e) \<and> sint (RpcEngine.call_id e) + int n < 2 ^ 31 \<longrightarrow>
      (\<forall>i \<in> set (fst (NextCallIds n e)). 0 < sint i \<and> \<not> reserved_call_id i))"
proof (intro conjI impI ballI)
  show "reserved_call_id (fst (NextCallId e)) \<longleftrightarrow>
      sint (RpcEngine.call_id e) \<in> {- 5, - 4, - 3, - 2}"
    by (auto simp: NextCallId_def reserved_call_id_sint sint_add_1)
next
  fix i
  assume h: "0 \<le> sint (RpcEngine.call_id e) \<and> sint (RpcEngine.call_id e) + int n < 2 ^ 31"
    and i: "i \<in> set (fst (NextCallIds n e))"
  from i obtain k where k: "k < n" "i = RpcEngine.call_id e + of_nat (Suc k)"
    by (auto simp: NextCallIds_eq_map simp del: of_nat_Suc)
  from h k have "sint (RpcEngine.call_id e) + int (Suc k) < 2 ^ 31" by simp
  from sint_add_of_nat [OF this] k h have "0 < sint i" by simp
  then show "0 < sint i" .
  then show "\<not> reserved_call_id i" by (auto simp: reserved_call_id_sint)
qed

text \<open>The amended claim C8 at a counter that stands at 7, for two calls.\<close>

theorem NextCallId_reserved_only_after_wrap_witness:
  "\<not> reserved_call_id (fst (NextCallId \<lparr>client_name = ''c'', protocol_name = ''p'',
       protocol_version = 1, call_id = 7\<rparr>)) \<and>
   0 \<le> sint (7 :: cint) \<and> sint (7 :: cint) + int 2 < 2 ^ 31 \<and>
   fst (NextCallIds 2 \<lparr>client_name = ''c'', protocol_name = ''p'', protocol_version = 1,
          call_id = 7\<rparr>) = [8, 9] \<and>
   0 < sint (8 :: cint) \<and> \<not> reserved_call_id 8 \<and>
   0 < sint (9 :: cint) \<and> \<not> reserved_call_id 9"
  using NextCallId_reserved_only_after_wrap
    [of "\<lparr>client_name = ''c'', protocol_name = ''p'', protocol_version = 1, call_id = 7\<rparr>" 2]
  by (simp add: numeral_2_eq_2 NextCallId_def)


section \<open>The retry counter of a Request\<close>

text \<open>
  Claim C9, as stated, at a concrete input: with the retry counter at \<open>INT_MAX\<close> the call
  returns \<open>2147483647\<close>, but the counter it leaves is not \<open>2147483648\<close>, which no
  \<open>int\<close> holds: the increment of the plain \<open>int\<close> overflows (the 32-bit machine leaves
  \<open>-2147483648\<close>).
\<close>

theorem IncrementRetryCount_overflows_at_INT_MAX:
  "sint (fst (IncrementRetryCount
      \<lparr>method_name = ''getFileInfo'', call_id = 1, payload = ''a'',
         retry_count = 2147483647\<rparr>)) = 2147483647 \<and>
   sint (retry_count (snd (IncrementRetryCount
      \<lparr>method_name = ''getFileInfo'', call_id = 1, payload = ''a'',
         retry_count = 2147483647\<rparr>))) = - 2147483648 \<and>
   sint (retry_count (snd (IncrementRetryCount
      \<lparr>method_name = ''getFileInfo'', call_id = 1, payload = ''a'',
         retry_count = 2147483647\<rparr>))) \<noteq>
   sint (retry_count \<lparr>method_name = ''getFileInfo'', call_id = 1, payload = ''a'',
         retry_count = 2147483647\<rparr>) + 1"
  by (simp add: IncrementRetryCount_def)

text \<open>
  Claim C9, amended: for every Request whose retry count \<open>n\<close> is below \<open>INT_MAX\<close>,
  \<open>IncrementRetryCount\<close> returns \<open>n\<close>, the count before the call, and leaves the
  stored counter at \<open>n + 1\<close>, read as integers; nothing else of the Request changes, so
  the next call returns \<open>n + 1\<close>.
\<close>

theorem IncrementRetryCount_returns_previous:
  assumes "sint (retry_count r) < 2 ^ 31 - 1"
  shows "fst (IncrementRetryCount r) = retry_count r \<and>
         sint (retry_count (snd (IncrementRetryCount r))) = sint (retry_count r) + 1 \<and>
         method_name (snd (IncrementRetryCount r)) = method_name r \<and>
         Request.call_id (snd (IncrementRetryCount r)) = Request.call_id r \<and>
         payload (snd (IncrementRetryCount r)) = payload r \<and>
         sint (fst (IncrementRetryCount (snd (IncrementRetryCount r)))) =
           sint (retry_count r) + 1"
proof -
  from assms have "sint (retry_count r) \<noteq> 2 ^ 31 - 1"
    by simp
  then have "sint (retry_count r + 1) = sint (retry_count r) + 1"
    by (simp add: sint_add_1)
  then show ?thesis
    by (simp add: IncrementRetryCount_def)
qed

text \<open>The amended claim C9 at a Request that has been retried twice.\<close>

theorem IncrementRetryCount_returns_previous_witness:
  "sint (2 :: cint) < 2 ^ 31 - 1 \<and>
   fst (IncrementRetryCount
      \<lparr>method_name = ''getFileInfo'', call_id = 1, payload = ''a'', retry_count = 2\<rparr>) = 2 \<and>
   sint (retry_count (snd (IncrementRetryCount
      \<lparr>method_name = ''getFileInfo'', call_id = 1, payload = ''a'', retry_count = 2\<rparr>))) = 3"
proof -
  have h: "sint (retry_count
      \<lparr>method_name = ''getFileInfo'', call_id = 1, payload = ''a'', retry_count = 2\<rparr>)
      < 2 ^ 31 - 1"
    by simp
  from IncrementRetryCount_returns_previous [OF h] h show ?thesis
    by simp
qed


section \<open>Dispatch of responses and timeouts on a connection\<close>

lemma HandleEvents_Nil [simp]: "HandleEvents t [] = t"
  by (simp add: HandleEvents_def)

lemma HandleEvents_Cons [simp]:
  "HandleEvents t (ev # evs) = HandleEvents (HandleEvent t ev) evs"
  by (simp add: HandleEvents_def)

text \<open>
  An event changes the connection in one place only: the entry of its call id leaves the
  in-flight map (if there is one).
\<close>

lemma HandleEvent_conn:
  "requests_on_fly (conn (HandleEvent t ev)) = (requests_on_fly (conn t))(target ev := None)"
  "pending_requests (conn (HandleEvent t ev)) = pending_requests (conn t)"
  "request_over_the_wire (conn (HandleEvent t ev)) = request_over_the_wire (conn t)"
  "connected (conn (HandleEvent t ev)) = connected (conn t)"
  by (cases ev; auto simp: HandleRpcResponse_def HandleRpcTimeout_def RemoveFromRunningQueue_def
      split: option.splits)+

lemma HandleEvent_keyed:
  "keyed_by_call_id (conn t) \<Longrightarrow> keyed_by_call_id (conn (HandleEvent t ev))"
  by (simp add: keyed_by_call_id_def HandleEvent_conn)

lemma HandleEvent_calls:
  "calls (HandleEvent t ev) =
     calls t @ (case ev of
        ResponseArrived f \<Rightarrow>
          (case requests_on_fly (conn t) (frame_call_id f) of None \<Rightarrow> []
           | Some r \<Rightarrow> [HandlerCall r (Some (frame_body f)) (frame_status f)])
      | TimerFired req \<Rightarrow> [])"
  by (cases ev) (auto simp: HandleRpcResponse_def HandleRpcTimeout_def RemoveFromRunningQueue_def
      OnResponseArrived_def split: option.splits)

lemma HandleEvent_candidates:
  "candidates (HandleEvent t ev) =
     candidates t @ (case ev of
        ResponseArrived f \<Rightarrow> []
      | TimerFired req \<Rightarrow>
          (case requests_on_fly (conn t) (Request.call_id req) of None \<Rightarrow> []
           | Some r \<Rightarrow> [(r, Failure Timeout)]))"
  by (cases ev) (auto simp: HandleRpcResponse_def HandleRpcTimeout_def RemoveFromRunningQueue_def
      split: option.splits)

text \<open>
  Once the call id of a Request has no entry in the in-flight map, no later event runs its
  handler or reports it: events only ever remove entries.
\<close>

lemma absent_stays_silent:
  assumes "keyed_by_call_id (conn t)" "requests_on_fly (conn t) (Request.call_id r) = None"
  shows "filter (\<lambda>h. hc_request h = r) (calls (HandleEvents t evs)) =
           filter (\<lambda>h. hc_request h = r) (calls t) \<and>
         filter (\<lambda>p. fst p = r) (candidates (HandleEvents t evs)) =
           filter (\<lambda>p. fst p = r) (candidates t)"
  using assms
proof (induction evs arbitrary: t)
  case Nil
  then show ?case by simp
next
  case (Cons ev evs)
  have k: "keyed_by_call_id (conn (HandleEvent t ev))"
    using Cons.prems(1) by (rule HandleEvent_keyed)
  have n: "requests_on_fly (conn (HandleEvent t ev)) (Request.call_id r) = None"
    using Cons.prems(2) by (simp add: HandleEvent_conn)
  have "\<And>q. requests_on_fly (conn t) (target ev) = Some q \<Longrightarrow> q \<noteq> r"
    using Cons.prems by (auto simp: keyed_by_call_id_def)
  then have "filter (\<lambda>h. hc_request h = r) (calls (HandleEvent t ev)) =
        filter (\<lambda>h. hc_request h = r) (calls t)"
       "filter (\<lambda>p. fst p = r) (candidates (HandleEvent t ev)) =
        filter (\<lambda>p. fst p = r) (candidates t)"
    by (auto simp: HandleEvent_calls HandleEvent_candidates split: Event.splits option.splits)
  with Cons.IH [OF k n] show ?case by simp
qed

text \<open>
  Claim C4: let the Request \<open>r\<close> be in flight under call id \<open>N\<close>, and let responses and
  timeouts for any call ids reach the connection in any order, the first of them that
  bears call id \<open>N\<close> being the response frame \<open>f\<close>. Then over the whole run the handler
  of \<open>r\<close> runs exactly once, and it receives the body and the status of \<open>f\<close>: the match
  is by the call id looked up in the in-flight map, whatever the position of \<open>f\<close> among
  the responses for other calls.
\<close>

theorem response_matched_by_call_id:
  assumes "keyed_by_call_id c"
    and "requests_on_fly c N = Some r"
    and "find (\<lambda>ev. target ev = N) evs = Some (ResponseArrived f)"
  shows "filter (\<lambda>h. hc_request h = r) (calls (HandleEvents (start c) evs)) =
           [HandlerCall r (Some (frame_body f)) (frame_status f)]"
proof -
  have "filter (\<lambda>h. hc_request h = r) (calls (HandleEvents t evs)) =
          filter (\<lambda>h. hc_request h = r) (calls t) @
          [HandlerCall r (Some (frame_body f)) (frame_status f)]"
    if "keyed_by_call_id (conn t)" "requests_on_fly (conn t) N = Some r"
    for t
    using that assms(3)
  proof (induction evs arbitrary: t)
    case Nil
    then show ?case by simp
  next
    case (Cons ev evs)
    have k: "keyed_by_call_id (conn (HandleEvent t ev))"
      using Cons.prems(1) by (rule HandleEvent_keyed)
    have N: "Request.call_id r = N"
      using Cons.prems(1,2) by (simp add: keyed_by_call_id_def)
    show ?case
    proof (cases "target ev = N")
      case True
      with Cons.prems(3) have ev: "ev = ResponseArrived f" by simp
      with True have fN: "frame_call_id f = N" by simp
      have n: "requests_on_fly (conn (HandleEvent t ev)) (Request.call_id r) = None"
        using True N by (simp add: HandleEvent_conn)
      have "filter (\<lambda>h. hc_request h = r) (calls (HandleEvent t ev)) =
          filter (\<lambda>h. hc_request h = r) (calls t) @
          [HandlerCall r (Some (frame_body f)) (frame_status f)]"
        using Cons.prems(2) fN by (simp add: HandleEvent_calls ev del: HandleEvent.simps)
      with absent_stays_silent [OF k n, of evs] show ?thesis by simp
    next
      case False
      with Cons.prems(3) have f: "find (\<lambda>ev. target ev = N) evs = Some (ResponseArrived f)"
        by simp
      have o: "requests_on_fly (conn (HandleEvent t ev)) N = Some r"
        using False Cons.prems(2) by (simp add: HandleEvent_conn)
      have "\<And>q. requests_on_fly (conn t) (target ev) = Some q \<Longrightarrow> q \<noteq> r"
        using Cons.prems(1) False N by (auto simp: keyed_by_call_id_def)
      then have "filter (\<lambda>h. hc_request h = r) (calls (HandleEvent t ev)) =
          filter (\<lambda>h. hc_request h = r) (calls t)"
        by (auto simp: HandleEvent_calls split: Event.splits option.splits)
      with Cons.IH [OF k o f] show ?thesis by simp
    qed
  qed
  from this [of "start c"] assms(1,2) show ?thesis
    by (simp add: start_def)
qed

text \<open>
  Claim C4 with two requests in flight and the responses delivered in the opposite
  order: the handler of the first request receives the frame that bears its call id.
\<close>

theorem response_matched_by_call_id_witness:
  "keyed_by_call_id conn_AB \<and> requests_on_fly conn_AB 1 = Some req_A \<and>
   find (\<lambda>ev. target ev = 1)
     [ResponseArrived \<lparr>frame_call_id = 2, frame_status = OK, frame_body = ''for b''\<rparr>,
      ResponseArrived \<lparr>frame_call_id = 1, frame_status = OK, frame_body = ''for a''\<rparr>]
     = Some (ResponseArrived \<lparr>frame_call_id = 1, frame_status = OK, frame_body = ''for a''\<rparr>) \<and>
   filter (\<lambda>h. hc_request h = req_A)
     (calls (HandleEvents (start conn_AB)
       [ResponseArrived \<lparr>frame_call_id = 2, frame_status = OK, frame_body = ''for b''\<rparr>,
        ResponseArrived \<lparr>frame_call_id = 1, frame_status = OK, frame_body = ''for a''\<rparr>]))
     = [HandlerCall req_A (Some ''for a'') OK]"
proof -
  have k: "keyed_by_call_id conn_AB"
    by (simp add: keyed_by_call_id_def)
  have o: "requests_on_fly conn_AB 1 = Some req_A"
    by simp
  have f: "find (\<lambda>ev. target ev = 1)
     [ResponseArrived \<lparr>frame_call_id = 2, frame_status = OK, frame_body = ''for b''\<rparr>,
      ResponseArrived \<lparr>frame_call_id = 1, frame_status = OK, frame_body = ''for a''\<rparr>]
     = Some (ResponseArrived \<lparr>frame_call_id = 1, frame_status = OK, frame_body = ''for a''\<rparr>)"
    by simp
  from response_matched_by_call_id [OF k o f] k o f show ?thesis
    by simp
qed

text \<open>
  Claim C7: let the deadline timer of the Request \<open>r\<close> fire while \<open>r\<close> is in flight (its
  response has not arrived). \<open>HandleRpcTimeout\<close> removes the entry of \<open>r\<close> from the
  in-flight map and nothing else: every other entry, the pending queue and the request
  over the wire are as before, and \<open>r\<close> is reported once with a timeout failure.
  Whatever reaches the connection afterwards, a stale response frame with the call id of
  \<open>r\<close> included, the connection neither runs the handler of \<open>r\<close> nor reports \<open>r\<close>
  again.
\<close>

theorem HandleRpcTimeout_removes_only_that_request:
  assumes "keyed_by_call_id c"
    and "requests_on_fly c (Request.call_id r) = Some r"
  shows "HandleRpcTimeout c r =
           (c\<lparr>requests_on_fly := (requests_on_fly c)(Request.call_id r := None)\<rparr>,
            Some (r, Failure Timeout)) \<and>
         (\<forall>i. i \<noteq> Request.call_id r \<longrightarrow>
           requests_on_fly (fst (HandleRpcTimeout c r)) i = requests_on_fly c i) \<and>
         pending_requests (fst (HandleRpcTimeout c r)) = pending_requests c \<and>
         request_over_the_wire (fst (HandleRpcTimeout c r)) = request_over_the_wire c \<and>
         (\<forall>evs.
           filter (\<lambda>h. hc_request h = r)
             (calls (HandleEvents (start (fst (HandleRpcTimeout c r))) evs)) = [] \<and>
           filter (\<lambda>p. fst p = r)
             (candidates (HandleEvents (start (fst (HandleRpcTimeout c r))) evs)) = [])"
proof -
  have eq: "HandleRpcTimeout c r =
           (c\<lparr>requests_on_fly := (requests_on_fly c)(Request.call_id r := None)\<rparr>,
            Some (r, Failure Timeout))"
    using assms(2) by (simp add: HandleRpcTimeout_def RemoveFromRunningQueue_def)
  have k: "keyed_by_call_id (conn (start (fst (HandleRpcTimeout c r))))"
    using assms(1) by (simp add: eq start_def keyed_by_call_id_def)
  have n: "requests_on_fly (conn (start (fst (HandleRpcTimeout c r)))) (Request.call_id r) = None"
    by (simp add: eq start_def)
  have "filter (\<lambda>h. hc_request h = r)
             (calls (HandleEvents (start (fst (HandleRpcTimeout c r))) evs)) = [] \<and>
           filter (\<lambda>p. fst p = r)
             (candidates (HandleEvents (start (fst (HandleRpcTimeout c r))) evs)) = []" for evs
    using absent_stays_silent [OF k n, of evs] by (simp add: start_def)
  with eq show ?thesis by simp
qed

text \<open>
  Claim C7 with two requests in flight: the timer of the first fires, the second stays in
  flight, and the stale response for the first, arriving later, runs no handler.
\<close>

theorem HandleRpcTimeout_removes_only_that_request_witness:
  "keyed_by_call_id conn_AB \<and> requests_on_fly conn_AB (Request.call_id req_A) = Some req_A \<and>
   snd (HandleRpcTimeout conn_AB req_A) = Some (req_A, Failure Timeout) \<and>
   requests_on_fly (fst (HandleRpcTimeout conn_AB req_A)) 1 = None \<and>
   requests_on_fly (fst (HandleRpcTimeout conn_AB req_A)) 2 = Some req_B \<and>
   filter (\<lambda>h. hc_request h = req_A)
     (calls (HandleEvents (start (fst (HandleRpcTimeout conn_AB req_A)))
       [ResponseArrived \<lparr>frame_call_id = 1, frame_status = OK, frame_body = ''late''\<rparr>])) = []"
proof -
  have k: "keyed_by_call_id conn_AB"
    by (simp add: keyed_by_call_id_def)
  have o: "requests_on_fly conn_AB (Request.call_id req_A) = Some req_A"
    by simp
  have late: "filter (\<lambda>h. hc_request h = req_A)
     (calls (HandleEvents (start (fst (HandleRpcTimeout conn_AB req_A)))
       [ResponseArrived \<lparr>frame_call_id = 1, frame_status = OK, frame_body = ''late''\<rparr>])) = []"
    using HandleRpcTimeout_removes_only_that_request [OF k o] by blast
  have "HandleRpcTimeout conn_AB req_A =
      (conn_AB\<lparr>requests_on_fly := [2 \<mapsto> req_B]\<rparr>, Some (req_A, Failure Timeout))"
    by (simp add: HandleRpcTimeout_def RemoveFromRunningQueue_def)
  with k o late show ?thesis
    by simp
qed

end
